theory Spec2Isabelle
  imports Complex_Main
begin

section \<open>QuarterWidget: scene, managers, navigation and painting\<close>

text \<open>
  A shallow embedding of \<^verbatim>\<open>src/Quarter/QuarterWidget.cpp\<close>. The widget's private
  fields (\<^verbatim>\<open>PRIVATE(this)->...\<close>) and the objects it points to are one record that
  every member function takes and returns. Pointers are \<open>nat option\<close> (\<open>None\<close> is
  \<^verbatim>\<open>NULL\<close>); the objects live in stores, so that \<^verbatim>\<open>delete\<close> removes an object
  and a call through a null or deleted pointer is an error value. Calls on
  collaborators whose consequences lie outside this file (drawing, the sensor
  queue, the host's repaint request, \<^verbatim>\<open>qDebug\<close>) are appended to a trace.
\<close>

subsection \<open>Scene nodes\<close>

datatype node_kind =
  SoPerspectiveCamera | SoOtherCamera | SoDirectionalLight | SoSeparator | SoOtherNode

text \<open>
  A scene graph as the traversal sees it: every node carries its identity (the
  pointer), its class and its children in order.
\<close>

datatype snode = SNode (ident: nat) (kind: node_kind) (children: "snode list")

definition isCamera :: "node_kind \<Rightarrow> bool" where
  "isCamera k = (k = SoPerspectiveCamera \<or> k = SoOtherCamera)"

text \<open>\<^verbatim>\<open>SoGroup::addChild\<close>: the child is appended after the existing children.\<close>

definition addChild :: "snode \<Rightarrow> snode \<Rightarrow> snode" where
  "addChild g c = SNode (ident g) (kind g) (children g @ [c])"

subsection \<open>Collaborating objects\<close>

type_synonym viewport = "int \<times> int"

datatype StereoMode = MONO | ANAGLYPH | QUAD_BUFFER | INTERLEAVED_ROWS | INTERLEAVED_COLUMNS

text \<open>
  The render manager, as far as this file reads and writes it. Each setter of
  \<^verbatim>\<open>SoRenderManager\<close> stores its argument and the matching getter returns it.
  Transparency types and render modes are the enumerators' integer values.
\<close>

record rendermanager =
  rm_scene :: "snode option"
  rm_camera :: "snode option"
  rm_viewport :: viewport
  rm_background :: "rat \<times> rat \<times> rat \<times> rat"
  rm_transparency :: nat
  rm_rendermode :: nat
  rm_stereomode :: StereoMode

record eventmanager =
  em_scene :: "snode option"
  em_camera :: "snode option"
  em_viewport :: viewport
  em_statemachines :: "nat list"

datatype scxml_type = ScXMLStateMachineT | SoScXMLStateMachineT

record statemachine =
  sm_type :: scxml_type
  sm_root :: "snode option"
  sm_camera :: "snode option"
  sm_active :: bool
  sm_callbacks :: nat

record url =
  scheme :: string
  authority :: string
  path :: string
  query :: string
  fragment :: string

datatype cursor =
  ArrowCursor | OpenHandCursor | ClosedHandCursor | SizeAllCursor | SizeVerCursor | CrossCursor
  | OtherCursor nat

datatype soevent = SoEvent nat

datatype dbg = DStr string | DUrl url

datatype effect =
  ScheduleRedraw nat
  | Render nat bool bool
  | DoneCurrent
  | ProcessDelayQueue
  | MakeCurrent
  | Update
  | DevicePixelRatioChanged rat
  | QueueEvent nat string
  | ProcessEventQueue nat
  | ProcessEvent nat soevent
  | Touch nat
  | QDebug "dbg list"

datatype error = NullPointer | DanglingPointer | AssertionFailed

subsection \<open>The widget and its world\<close>

text \<open>
  The first block is \<^verbatim>\<open>QuarterWidgetP\<close>; then the stores of the objects the
  pointers refer to, the reference counts as changed by this file's own
  \<^verbatim>\<open>ref()\<close> and \<^verbatim>\<open>unref()\<close> calls, the allocator of node identities, the
  process-wide \<^verbatim>\<open>QuarterP::statecursormap\<close> (\<open>None\<close> before it is created), and
  the trace. State machines are allocated by this file, so their store is a list
  indexed by address: a new object takes the next index and a deleted one leaves
  \<open>None\<close> behind.
\<close>

record state =
  sorendermanager :: "nat option"
  initialsorendermanager :: bool
  soeventmanager :: "nat option"
  initialsoeventmanager :: bool
  processdelayqueue :: bool
  autoredrawenabled :: bool
  clearwindow :: bool
  clearzbuffer :: bool
  scene :: "snode option"
  headlight :: snode
  currentStateMachine :: "nat option"
  navigationModeFile :: url
  device_pixel_ratio :: rat
  rmanagers :: "nat \<rightharpoonup> rendermanager"
  emanagers :: "nat \<rightharpoonup> eventmanager"
  statemachines :: "statemachine option list"
  refcount :: "nat \<Rightarrow> int"
  next_id :: nat
  statecursormap :: "(string \<rightharpoonup> cursor) option"
  trace :: "effect list"

definition ebind :: "error + 'a \<Rightarrow> ('a \<Rightarrow> error + 'b) \<Rightarrow> error + 'b" where
  "ebind m f = (case m of Inl e \<Rightarrow> Inl e | Inr x \<Rightarrow> f x)"

definition emit :: "effect list \<Rightarrow> state \<Rightarrow> state" where
  "emit es s = s\<lparr>trace := trace s @ es\<rparr>"

text \<open>Reading and updating a render manager through a pointer.\<close>

definition rm_get :: "nat option \<Rightarrow> state \<Rightarrow> error + rendermanager" where
  "rm_get p s =
     (case p of
        None \<Rightarrow> Inl NullPointer
      | Some a \<Rightarrow> (case rmanagers s a of None \<Rightarrow> Inl DanglingPointer | Some m \<Rightarrow> Inr m))"

definition rm_set :: "nat option \<Rightarrow> (rendermanager \<Rightarrow> rendermanager) \<Rightarrow> state \<Rightarrow> error + state" where
  "rm_set p f s =
     (case p of
        None \<Rightarrow> Inl NullPointer
      | Some a \<Rightarrow>
          (case rmanagers s a of
             None \<Rightarrow> Inl DanglingPointer
           | Some m \<Rightarrow> Inr (s\<lparr>rmanagers := (rmanagers s)(a \<mapsto> f m)\<rparr>)))"

definition em_get :: "nat option \<Rightarrow> state \<Rightarrow> error + eventmanager" where
  "em_get p s =
     (case p of
        None \<Rightarrow> Inl NullPointer
      | Some a \<Rightarrow> (case emanagers s a of None \<Rightarrow> Inl DanglingPointer | Some m \<Rightarrow> Inr m))"

definition em_set :: "nat option \<Rightarrow> (eventmanager \<Rightarrow> eventmanager) \<Rightarrow> state \<Rightarrow> error + state" where
  "em_set p f s =
     (case p of
        None \<Rightarrow> Inl NullPointer
      | Some a \<Rightarrow>
          (case emanagers s a of
             None \<Rightarrow> Inl DanglingPointer
           | Some m \<Rightarrow> Inr (s\<lparr>emanagers := (emanagers s)(a \<mapsto> f m)\<rparr>)))"

text \<open>\<^verbatim>\<open>delete p\<close>: nothing for a null pointer, the object leaves the store otherwise.\<close>

definition delete_rm :: "nat option \<Rightarrow> state \<Rightarrow> error + state" where
  "delete_rm p s =
     (case p of
        None \<Rightarrow> Inr s
      | Some a \<Rightarrow>
          (case rmanagers s a of
             None \<Rightarrow> Inl DanglingPointer
           | Some m \<Rightarrow> Inr (s\<lparr>rmanagers := (rmanagers s)(a := None)\<rparr>)))"

definition delete_em :: "nat option \<Rightarrow> state \<Rightarrow> error + state" where
  "delete_em p s =
     (case p of
        None \<Rightarrow> Inr s
      | Some a \<Rightarrow>
          (case emanagers s a of
             None \<Rightarrow> Inl DanglingPointer
           | Some m \<Rightarrow> Inr (s\<lparr>emanagers := (emanagers s)(a := None)\<rparr>)))"

text \<open>\<^verbatim>\<open>if (n) n->ref()\<close> and \<^verbatim>\<open>if (n) n->unref()\<close>.\<close>

definition ref_node :: "snode option \<Rightarrow> state \<Rightarrow> state" where
  "ref_node n s =
     (case n of
        None \<Rightarrow> s
      | Some x \<Rightarrow> s\<lparr>refcount := (refcount s)(ident x := refcount s (ident x) + 1)\<rparr>)"

definition unref_node :: "snode option \<Rightarrow> state \<Rightarrow> state" where
  "unref_node n s =
     (case n of
        None \<Rightarrow> s
      | Some x \<Rightarrow> s\<lparr>refcount := (refcount s)(ident x := refcount s (ident x) - 1)\<rparr>)"

subsection \<open>Swapping the managers\<close>

text \<open>
  \<^verbatim>\<open>QuarterWidget::setSoRenderManager\<close>. The scene, camera and viewport are read
  from the current manager while it is still alive; the current manager is deleted
  when the widget owns it; the values are then stored into the new manager.
  \<^verbatim>\<open>SbViewportRegion vp;\<close> is only read when it has been assigned.
\<close>

definition setSoRenderManager :: "nat option \<Rightarrow> state \<Rightarrow> error + state" where
  "setSoRenderManager manager s =
     ebind (if sorendermanager s \<noteq> None \<and> manager \<noteq> None
            then ebind (rm_get (sorendermanager s) s) (\<lambda>m. Inr (Some m))
            else Inr None)
       (\<lambda>carrydata.
          let scene0 = (case carrydata of None \<Rightarrow> None | Some m \<Rightarrow> rm_scene m);
              camera0 = (case carrydata of None \<Rightarrow> None | Some m \<Rightarrow> rm_camera m);
              s1 = ref_node camera0 (ref_node scene0 s)
          in
          ebind (if initialsorendermanager s1
                 then ebind (delete_rm (sorendermanager s1) s1)
                        (\<lambda>s2. Inr (s2\<lparr>initialsorendermanager := False\<rparr>))
                 else Inr s1)
            (\<lambda>s3.
               let s4 = s3\<lparr>sorendermanager := manager\<rparr> in
               ebind (case carrydata of
                        None \<Rightarrow> Inr s4
                      | Some m \<Rightarrow>
                          ebind (rm_set (sorendermanager s4) (\<lambda>r. r\<lparr>rm_scene := scene0\<rparr>) s4)
                            (\<lambda>s5. ebind (rm_set (sorendermanager s5) (\<lambda>r. r\<lparr>rm_camera := camera0\<rparr>) s5)
                               (\<lambda>s6. rm_set (sorendermanager s6)
                                        (\<lambda>r. r\<lparr>rm_viewport := rm_viewport m\<rparr>) s6)))
                 (\<lambda>s7. Inr (unref_node camera0 (unref_node scene0 s7)))))"

text \<open>\<^verbatim>\<open>QuarterWidget::setSoEventManager\<close>, the same discipline on the event manager.\<close>

definition setSoEventManager :: "nat option \<Rightarrow> state \<Rightarrow> error + state" where
  "setSoEventManager manager s =
     ebind (if soeventmanager s \<noteq> None \<and> manager \<noteq> None
            then ebind (em_get (soeventmanager s) s) (\<lambda>m. Inr (Some m))
            else Inr None)
       (\<lambda>carrydata.
          let scene0 = (case carrydata of None \<Rightarrow> None | Some m \<Rightarrow> em_scene m);
              camera0 = (case carrydata of None \<Rightarrow> None | Some m \<Rightarrow> em_camera m);
              s1 = ref_node camera0 (ref_node scene0 s)
          in
          ebind (if initialsoeventmanager s1
                 then ebind (delete_em (soeventmanager s1) s1)
                        (\<lambda>s2. Inr (s2\<lparr>initialsoeventmanager := False\<rparr>))
                 else Inr s1)
            (\<lambda>s3.
               let s4 = s3\<lparr>soeventmanager := manager\<rparr> in
               ebind (case carrydata of
                        None \<Rightarrow> Inr s4
                      | Some m \<Rightarrow>
                          ebind (em_set (soeventmanager s4) (\<lambda>r. r\<lparr>em_scene := scene0\<rparr>) s4)
                            (\<lambda>s5. ebind (em_set (soeventmanager s5) (\<lambda>r. r\<lparr>em_camera := camera0\<rparr>) s5)
                               (\<lambda>s6. em_set (soeventmanager s6)
                                        (\<lambda>r. r\<lparr>em_viewport := em_viewport m\<rparr>) s6)))
                 (\<lambda>s7. Inr (unref_node camera0 (unref_node scene0 s7)))))"

text \<open>\<^verbatim>\<open>QuarterWidget::getSoRenderManager\<close> and \<^verbatim>\<open>getSoEventManager\<close>.\<close>

definition getSoRenderManager :: "state \<Rightarrow> nat option" where
  "getSoRenderManager s = sorendermanager s"

definition getSoEventManager :: "state \<Rightarrow> nat option" where
  "getSoEventManager s = soeventmanager s"

subsection \<open>Render configuration\<close>















subsection \<open>Installing a scene\<close>

text \<open>
  Modelled from the spec: \<^verbatim>\<open>QuarterWidgetP::searchForCamera\<close> is not in the source
  at hand. The spec has it return the first camera met in a depth-first traversal
  of the node's subgraph, and nothing when there is none.
\<close>

fun searchForCamera :: "snode \<Rightarrow> snode option"
  and searchChildren :: "snode list \<Rightarrow> snode option" where
  "searchForCamera (SNode i k cs) =
     (if isCamera k then Some (SNode i k cs) else searchChildren cs)"
| "searchChildren [] = None"
| "searchChildren (c # cs) =
     (case searchForCamera c of Some x \<Rightarrow> Some x | None \<Rightarrow> searchChildren cs)"

text \<open>Reading and updating a state machine through a pointer; \<^verbatim>\<open>new\<close> and \<^verbatim>\<open>delete\<close>.\<close>

definition sm_at :: "state \<Rightarrow> nat \<Rightarrow> statemachine option" where
  "sm_at s a = (if a < length (statemachines s) then statemachines s ! a else None)"

definition sm_get :: "nat option \<Rightarrow> state \<Rightarrow> error + statemachine" where
  "sm_get p s =
     (case p of
        None \<Rightarrow> Inl NullPointer
      | Some a \<Rightarrow> (case sm_at s a of None \<Rightarrow> Inl DanglingPointer | Some m \<Rightarrow> Inr m))"

definition sm_set :: "nat option \<Rightarrow> (statemachine \<Rightarrow> statemachine) \<Rightarrow> state \<Rightarrow> error + state" where
  "sm_set p f s =
     (case p of
        None \<Rightarrow> Inl NullPointer
      | Some a \<Rightarrow>
          (case sm_at s a of
             None \<Rightarrow> Inl DanglingPointer
           | Some m \<Rightarrow> Inr (s\<lparr>statemachines := (statemachines s)[a := Some (f m)]\<rparr>)))"

definition new_sm :: "scxml_type \<Rightarrow> state \<Rightarrow> nat \<times> state" where
  "new_sm t s =
     (length (statemachines s),
      s\<lparr>statemachines := statemachines s @
          [Some \<lparr>sm_type = t, sm_root = None, sm_camera = None, sm_active = False,
                 sm_callbacks = 0\<rparr>]\<rparr>)"

definition delete_sm :: "nat option \<Rightarrow> state \<Rightarrow> error + state" where
  "delete_sm p s =
     (case p of
        None \<Rightarrow> Inr s
      | Some a \<Rightarrow>
          (case sm_at s a of
             None \<Rightarrow> Inl DanglingPointer
           | Some m \<Rightarrow> Inr (s\<lparr>statemachines := (statemachines s)[a := None]\<rparr>)))"

text \<open>
  The loop of \<^verbatim>\<open>viewAll\<close> and \<^verbatim>\<open>seek\<close> over the event manager's state machines:
  an active one gets the named event queued and its queue processed.
\<close>

fun signal_machines :: "string \<Rightarrow> nat list \<Rightarrow> state \<Rightarrow> error + state" where
  "signal_machines ev [] s = Inr s"
| "signal_machines ev (p # ps) s =
     ebind (sm_get (Some p) s)
       (\<lambda>m. signal_machines ev ps
               (if sm_active m then emit [QueueEvent p ev, ProcessEventQueue p] s else s))"

definition viewAll :: "state \<Rightarrow> error + state" where
  "viewAll s =
     ebind (em_get (soeventmanager s) s)
       (\<lambda>em. signal_machines ''sim.coin3d.coin.navigation.ViewAll'' (em_statemachines em) s)"

definition seek :: "state \<Rightarrow> error + state" where
  "seek s =
     ebind (em_get (soeventmanager s) s)
       (\<lambda>em. signal_machines ''sim.coin3d.coin.navigation.Seek'' (em_statemachines em) s)"

text \<open>\<^verbatim>\<open>new SoSeparator\<close> and \<^verbatim>\<open>new SoPerspectiveCamera\<close>: a node with a new identity.\<close>

definition new_node :: "node_kind \<Rightarrow> state \<Rightarrow> snode \<times> state" where
  "new_node k s = (SNode (next_id s) k [], s\<lparr>next_id := Suc (next_id s)\<rparr>)"

text \<open>
  \<^verbatim>\<open>QuarterWidget::setSceneGraph\<close>, in the order of the source: the early return
  (\<^verbatim>\<open>node == scene\<close> compares pointers, that is identities), the release of the
  old scene, the composition of the new root for a non-null node, and the
  installation. The composition returns the camera, the new root and the
  \<^verbatim>\<open>viewall\<close> flag.
\<close>

definition compose_scene :: "snode \<Rightarrow> state \<Rightarrow> (snode option \<times> snode option \<times> bool) \<times> state" where
  "compose_scene node s =
     (let s1 = ref_node (Some node) (s\<lparr>scene := Some node\<rparr>);
          (sep, s2) = new_node SoSeparator s1;
          superscene = addChild sep (headlight s2)
      in case searchForCamera node of
           Some camera \<Rightarrow> ((Some camera, Some (addChild superscene node), False), s2)
         | None \<Rightarrow>
             (let (camera, s3) = new_node SoPerspectiveCamera s2
              in ((Some camera, Some (addChild (addChild superscene camera) node), True), s3)))"

text \<open>The release of the scene installed before.\<close>

definition release_scene :: "state \<Rightarrow> state" where
  "release_scene s =
     (case scene s of
        None \<Rightarrow> s
      | Some old \<Rightarrow> (unref_node (Some old) s)\<lparr>scene := None\<rparr>)"

text \<open>The four manager calls, the view reset when it was marked, and \<^verbatim>\<open>touch()\<close>.\<close>

definition install_scene :: "snode option \<Rightarrow> snode option \<Rightarrow> bool \<Rightarrow> state \<Rightarrow> error + state" where
  "install_scene camera superscene viewall s =
     ebind (em_set (soeventmanager s) (\<lambda>m. m\<lparr>em_camera := camera\<rparr>) s)
       (\<lambda>s1. ebind (rm_set (sorendermanager s1) (\<lambda>m. m\<lparr>rm_camera := camera\<rparr>) s1)
       (\<lambda>s2. ebind (em_set (soeventmanager s2) (\<lambda>m. m\<lparr>em_scene := superscene\<rparr>) s2)
       (\<lambda>s3. ebind (rm_set (sorendermanager s3) (\<lambda>m. m\<lparr>rm_scene := superscene\<rparr>) s3)
       (\<lambda>s4. ebind (if viewall then viewAll s4 else Inr s4)
       (\<lambda>s5. Inr (case superscene of
                     None \<Rightarrow> s5
                   | Some r \<Rightarrow> emit [Touch (ident r)] s5))))))"

definition setSceneGraph :: "snode option \<Rightarrow> state \<Rightarrow> error + state" where
  "setSceneGraph node s =
     (if map_option ident node = map_option ident (scene s) then Inr s
      else
        let s1 = release_scene s;
            ((camera, superscene, viewall), s2) =
               (case node of
                  None \<Rightarrow> ((None, None, False), s1)
                | Some n \<Rightarrow> compose_scene n s1)
        in install_scene camera superscene viewall s2)"

definition getSceneGraph :: "state \<Rightarrow> snode option" where
  "getSceneGraph s = scene s"

subsection \<open>Painting\<close>

text \<open>
  What a paint or resize reads from its surroundings: the pixel ratio of the
  window, the widget's logical size, \<^verbatim>\<open>isValid()\<close> at the two assertions and
  \<^verbatim>\<open>SoDB::getSensorManager()->isDelaySensorPending()\<close>. The build is the one
  for Qt 5.6 or later, where the pixel-ratio blocks are compiled in.
\<close>

record paintenv =
  window_ratio :: rat
  widget_width :: int
  widget_height :: int
  isValid :: bool
  isValid_after :: bool
  isDelaySensorPending :: bool

text \<open>
  The C cast \<^verbatim>\<open>(int)\<close> of a product: truncation towards zero. The products
  of a pixel ratio and a size are exact rationals here and the result is an
  unbounded integer, where the code multiplies doubles and casts to \<^verbatim>\<open>int\<close>;
  the two can differ when the ratio is not a dyadic fraction or the product
  leaves the range of \<^verbatim>\<open>int\<close>. No statement below reads a viewport computed
  this way.
\<close>

definition int_cast :: "rat \<Rightarrow> int" where
  "int_cast x = (if 0 \<le> x then \<lfloor>x\<rfloor> else \<lceil>x\<rceil>)"

definition updateDevicePixelRatio :: "rat \<Rightarrow> state \<Rightarrow> bool \<times> state" where
  "updateDevicePixelRatio dev_pix_ratio s =
     (if device_pixel_ratio s \<noteq> dev_pix_ratio
      then (True, emit [DevicePixelRatioChanged dev_pix_ratio]
                    (s\<lparr>device_pixel_ratio := dev_pix_ratio\<rparr>))
      else (False, s))"

definition devicePixelRatio :: "state \<Rightarrow> rat" where
  "devicePixelRatio s = device_pixel_ratio s"

definition set_viewports :: "viewport \<Rightarrow> state \<Rightarrow> error + state" where
  "set_viewports vp s =
     ebind (rm_set (sorendermanager s) (\<lambda>m. m\<lparr>rm_viewport := vp\<rparr>) s)
       (\<lambda>s1. em_set (soeventmanager s1) (\<lambda>m. m\<lparr>em_viewport := vp\<rparr>) s1)"

definition resizeGL :: "rat \<Rightarrow> int \<Rightarrow> int \<Rightarrow> state \<Rightarrow> error + state" where
  "resizeGL ratio w h s =
     (let (changed, s1) = updateDevicePixelRatio ratio s;
          dev_pix_ratio = devicePixelRatio s1
      in set_viewports (int_cast (dev_pix_ratio * of_int w), int_cast (dev_pix_ratio * of_int h)) s1)"

text \<open>\<^verbatim>\<open>QuarterWidget::actualRedraw\<close>: the one call that draws.\<close>

definition actualRedraw :: "state \<Rightarrow> error + state" where
  "actualRedraw s =
     ebind (rm_get (sorendermanager s) s)
       (\<lambda>m. Inr (emit [Render (the (sorendermanager s)) (clearwindow s) (clearzbuffer s)] s))"

text \<open>
  \<^verbatim>\<open>QuarterWidget::paintGL\<close>. The delay queue is processed, between releasing and
  reacquiring the context, when \<^verbatim>\<open>processdelayqueue\<close> holds and a delay sensor is
  pending; the last statement sets \<^verbatim>\<open>processdelayqueue\<close> to true.
\<close>

definition paintGL :: "paintenv \<Rightarrow> state \<Rightarrow> error + state" where
  "paintGL env s =
     (let (changed, s1) = updateDevicePixelRatio (window_ratio env) s in
      ebind (if changed
             then set_viewports (int_cast (devicePixelRatio s1 * of_int (widget_width env)),
                                 int_cast (devicePixelRatio s1 * of_int (widget_height env))) s1
             else Inr s1)
        (\<lambda>s2.
           if \<not> isValid env then Inl AssertionFailed
           else
             let s3 = s2\<lparr>autoredrawenabled := False\<rparr>;
                 s4 = (if processdelayqueue s3 \<and> isDelaySensorPending env
                       then emit [DoneCurrent, ProcessDelayQueue, MakeCurrent] s3
                       else s3)
             in if \<not> isValid_after env then Inl AssertionFailed
                else ebind (actualRedraw s4)
                       (\<lambda>s5. Inr (s5\<lparr>autoredrawenabled := True, processdelayqueue := True\<rparr>))))"

text \<open>\<^verbatim>\<open>QuarterWidget::redraw\<close>: clears the flag and asks the host for a repaint.\<close>

definition redraw :: "state \<Rightarrow> state" where
  "redraw s = emit [Update] (s\<lparr>processdelayqueue := False\<rparr>)"

text \<open>How often a trace has the delay queue processed.\<close>

definition flushes :: "effect list \<Rightarrow> nat" where
  "flushes t = length (filter (\<lambda>e. e = ProcessDelayQueue) t)"


text \<open>The number of times the second of two successive paints processes the queue.\<close>

definition second_paint_flushes :: "paintenv \<Rightarrow> paintenv \<Rightarrow> state \<Rightarrow> nat option" where
  "second_paint_flushes env1 env2 s =
     (case paintGL env1 s of
        Inl e \<Rightarrow> None
      | Inr s1 \<Rightarrow>
          (case paintGL env2 s1 of
             Inl e \<Rightarrow> None
           | Inr s2 \<Rightarrow> Some (flushes (trace s2) - flushes (trace s1))))"

subsection \<open>Events\<close>

text \<open>
  \<^verbatim>\<open>QuarterWidget::processSoEvent\<close>. What \<^verbatim>\<open>SoEventManager::processEvent\<close>
  answers is the parameter \<open>processEvent\<close>; the call is recorded in the trace.
\<close>

definition processSoEvent ::
  "(eventmanager \<Rightarrow> soevent \<Rightarrow> bool) \<Rightarrow> soevent option \<Rightarrow> state \<Rightarrow> error + (bool \<times> state)" where
  "processSoEvent processEvent event s =
     (case event of
        None \<Rightarrow> Inr (False, s)
      | Some e \<Rightarrow>
          (case soeventmanager s of
             None \<Rightarrow> Inr (False, s)
           | Some a \<Rightarrow>
               ebind (em_get (Some a) s)
                 (\<lambda>m. Inr (processEvent m e, emit [ProcessEvent a e] s))))"

subsection \<open>Navigation\<close>

text \<open>\<^verbatim>\<open>setStateCursor\<close> and \<^verbatim>\<open>stateCursor\<close> on the process-wide table.\<close>

definition setStateCursor :: "string \<Rightarrow> cursor \<Rightarrow> state \<Rightarrow> error + state" where
  "setStateCursor name c s =
     (case statecursormap s of
        None \<Rightarrow> Inl AssertionFailed
      | Some m \<Rightarrow> Inr (s\<lparr>statecursormap := Some (m(name \<mapsto> c))\<rparr>))"

definition stateCursor :: "string \<Rightarrow> state \<Rightarrow> error + cursor option" where
  "stateCursor name s =
     (case statecursormap s of
        None \<Rightarrow> Inl AssertionFailed
      | Some m \<Rightarrow> Inr (m name))"

text \<open>\<^verbatim>\<open>QuarterWidget::addStateMachine\<close> and \<^verbatim>\<open>removeStateMachine\<close>.\<close>

definition addStateMachine :: "nat option \<Rightarrow> state \<Rightarrow> error + state" where
  "addStateMachine sm s =
     ebind (em_set (getSoEventManager s)
              (\<lambda>m. m\<lparr>em_statemachines := em_statemachines m @ [the sm]\<rparr>) s)
       (\<lambda>s1. ebind (rm_get (getSoRenderManager s1) s1)
       (\<lambda>rm. ebind (sm_set sm (\<lambda>m. m\<lparr>sm_root := rm_scene rm\<rparr>) s1)
       (\<lambda>s2. ebind (sm_set sm (\<lambda>m. m\<lparr>sm_camera := rm_camera rm\<rparr>) s2)
       (\<lambda>s3. sm_set sm (\<lambda>m. m\<lparr>sm_callbacks := Suc (sm_callbacks m)\<rparr>) s3))))"

definition removeStateMachine :: "nat option \<Rightarrow> state \<Rightarrow> error + state" where
  "removeStateMachine sm s =
     ebind (sm_set sm (\<lambda>m. m\<lparr>sm_root := None\<rparr>) s)
       (\<lambda>s1. ebind (sm_set sm (\<lambda>m. m\<lparr>sm_camera := None\<rparr>) s1)
       (\<lambda>s2. em_set (getSoEventManager s2)
                (\<lambda>m. m\<lparr>em_statemachines := remove1 (the sm) (em_statemachines m)\<rparr>) s2))"

text \<open>
  What loading reads from outside: \<^verbatim>\<open>QUrl::toLocalFile\<close>, \<^verbatim>\<open>ScXML::readFile\<close>
  (the class of the object it builds, if any), \<^verbatim>\<open>QFile::open\<close> with
  \<^verbatim>\<open>readAll\<close> (the contents, if the file opens) and \<^verbatim>\<open>ScXML::readBuffer\<close>.
\<close>

record resources =
  toLocalFile :: "url \<Rightarrow> string"
  readFile :: "string \<Rightarrow> scxml_type option"
  openFile :: "string \<Rightarrow> string option"
  readBuffer :: "string \<Rightarrow> scxml_type option"

definition isEmpty :: "url \<Rightarrow> bool" where
  "isEmpty u = (scheme u = [] \<and> authority u = [] \<and> path u = [] \<and> query u = [] \<and> fragment u = [])"

definition empty_url :: url where
  "empty_url = \<lparr>scheme = [], authority = [], path = [], query = [], fragment = []\<rparr>"

text \<open>
  The name handed to the reader for the scheme \<^verbatim>\<open>coin\<close>: a leading slash of the
  path is removed and the scheme with a colon put in front. For an empty path
  \<^verbatim>\<open>filename[0]\<close> is not a slash and nothing is removed.
\<close>

definition coin_filename :: "url \<Rightarrow> string" where
  "coin_filename u =
     (let filename = path u;
          filename = (if filename \<noteq> [] \<and> hd filename = CHR ''/'' then tl filename else filename)
      in scheme u @ '':'' @ filename)"

text \<open>The class of the object the reader builds for a name, or nothing.\<close>

definition read_statemachine :: "resources \<Rightarrow> string \<Rightarrow> scxml_type option" where
  "read_statemachine res filenametmp =
     (if take 5 filenametmp = ''coin:'' then readFile res filenametmp
      else (case openFile res filenametmp of
              None \<Rightarrow> None
            | Some fileContents \<Rightarrow> readBuffer res fileContents))"

text \<open>The eight \<^verbatim>\<open>setStateCursor\<close> calls for the default navigation file.\<close>

definition default_cursors :: "(string \<times> cursor) list" where
  "default_cursors =
     [(''interact'', ArrowCursor), (''idle'', OpenHandCursor), (''rotate'', ClosedHandCursor),
      (''pan'', SizeAllCursor), (''zoom'', SizeVerCursor), (''dolly'', SizeVerCursor),
      (''seek'', CrossCursor), (''spin'', OpenHandCursor)]"

fun setStateCursors :: "(string \<times> cursor) list \<Rightarrow> state \<Rightarrow> error + state" where
  "setStateCursors [] s = Inr s"
| "setStateCursors ((name, c) # rest) s = ebind (setStateCursor name c s) (setStateCursors rest)"

text \<open>
  The second half of \<^verbatim>\<open>setNavigationModeFile\<close>, from \<^verbatim>\<open>filename.toLocal8Bit()\<close>
  on. \<open>DEFAULT_NAVIGATIONFILE\<close> is a macro of a header that is not at hand and is
  a parameter. The reader's object is allocated at a new address;
  \<^verbatim>\<open>isOfType(SoScXMLStateMachine::getClassTypeId())\<close> reads its class;
  \<^verbatim>\<open>initialize()\<close> is recorded as the machine becoming active.
\<close>

definition load_navigation :: "resources \<Rightarrow> url \<Rightarrow> url \<Rightarrow> string \<Rightarrow> state \<Rightarrow> error + state" where
  "load_navigation res DEFAULT_NAVIGATIONFILE u filename s =
     (let (stateMachine, s1) =
            (case read_statemachine res filename of
               None \<Rightarrow> (None, s)
             | Some t \<Rightarrow> (let (a, s') = new_sm t s in (Some a, s')))
      in
      if (case stateMachine of
            None \<Rightarrow> False
          | Some a \<Rightarrow> (case sm_at s1 a of
                        None \<Rightarrow> False
                      | Some m \<Rightarrow> sm_type m = SoScXMLStateMachineT))
      then
        ebind (if currentStateMachine s1 \<noteq> None
               then ebind (removeStateMachine (currentStateMachine s1) s1)
                      (\<lambda>s2. delete_sm (currentStateMachine s2) s2)
               else Inr s1)
          (\<lambda>s3. ebind (addStateMachine stateMachine s3)
          (\<lambda>s4. ebind (sm_set stateMachine (\<lambda>m. m\<lparr>sm_active := True\<rparr>) s4)
          (\<lambda>s5. let s6 = s5\<lparr>currentStateMachine := stateMachine\<rparr>;
                     s7 = s6\<lparr>navigationModeFile := u\<rparr>
                 in if DEFAULT_NAVIGATIONFILE = navigationModeFile s7
                    then setStateCursors default_cursors s7
                    else Inr s7)))
      else
        ebind (delete_sm stateMachine s1)
          (\<lambda>s2. Inr (emit [QDebug [DStr filename], QDebug [DStr ''Unable to load'', DUrl u]] s2)))"

text \<open>\<^verbatim>\<open>QuarterWidget::setNavigationModeFile\<close> and \<^verbatim>\<open>resetNavigationModeFile\<close>.\<close>

definition setNavigationModeFile :: "resources \<Rightarrow> url \<Rightarrow> url \<Rightarrow> state \<Rightarrow> error + state" where
  "setNavigationModeFile res DEFAULT_NAVIGATIONFILE u s =
     (if scheme u = ''coin'' then load_navigation res DEFAULT_NAVIGATIONFILE u (coin_filename u) s
      else if scheme u = ''file''
      then load_navigation res DEFAULT_NAVIGATIONFILE u (toLocalFile res u) s
      else if isEmpty u then
        (if currentStateMachine s \<noteq> None
         then ebind (removeStateMachine (currentStateMachine s) s)
                (\<lambda>s1. ebind (delete_sm (currentStateMachine s1) s1)
                (\<lambda>s2. Inr (s2\<lparr>currentStateMachine := None, navigationModeFile := u\<rparr>)))
         else Inr s)
      else Inr (emit [QDebug [DStr (scheme u), DStr ''is not recognized'']] s))"

definition resetNavigationModeFile :: "resources \<Rightarrow> url \<Rightarrow> state \<Rightarrow> error + state" where
  "resetNavigationModeFile res DEFAULT_NAVIGATIONFILE s =
     setNavigationModeFile res DEFAULT_NAVIGATIONFILE empty_url s"

subsection \<open>Notions used in the statements\<close>

text \<open>
  The nodes of a subgraph in depth-first order, parents before children and
  children from first to last.
\<close>

fun preorder :: "snode \<Rightarrow> snode list"
  and preorder_list :: "snode list \<Rightarrow> snode list" where
  "preorder (SNode i k cs) = SNode i k cs # preorder_list cs"
| "preorder_list [] = []"
| "preorder_list (c # cs) = preorder c @ preorder_list cs"

text \<open>
  Those of the given state machines that are alive and active, and the effects of
  sending each of them a named event.
\<close>

definition active_machines :: "state \<Rightarrow> nat list \<Rightarrow> nat list" where
  "active_machines s ps =
     filter (\<lambda>p. case sm_at s p of None \<Rightarrow> False | Some m \<Rightarrow> sm_active m) ps"

definition signals :: "string \<Rightarrow> nat list \<Rightarrow> effect list" where
  "signals ev ps = concat (map (\<lambda>p. [QueueEvent p ev, ProcessEventQueue p]) ps)"

text \<open>The state machines attached to the widget's event manager.\<close>

definition attached_machines :: "state \<Rightarrow> nat list" where
  "attached_machines s =
     (case em_get (soeventmanager s) s of Inl e \<Rightarrow> [] | Inr em \<Rightarrow> em_statemachines em)"

text \<open>The cursor table after one more binding.\<close>

definition bind_cursor :: "string \<times> cursor \<Rightarrow> (string \<rightharpoonup> cursor) \<Rightarrow> (string \<rightharpoonup> cursor)" where
  "bind_cursor kc m = m(fst kc \<mapsto> snd kc)"

text \<open>The name that \<^verbatim>\<open>setNavigationModeFile\<close> hands to the reader.\<close>

definition navigation_filename :: "resources \<Rightarrow> url \<Rightarrow> string" where
  "navigation_filename res u = (if scheme u = ''coin'' then coin_filename u else toLocalFile res u)"


subsection \<open>Sample data\<close>

text \<open>
  A widget as its constructor leaves it, with both managers owned, a second render
  manager at address 3 supplied by a caller, and two user scenes: one without a
  camera and one with two cameras.
\<close>

definition sample_light :: snode where
  "sample_light = SNode 0 SoDirectionalLight []"

definition scene_without_camera :: snode where
  "scene_without_camera = SNode 10 SoSeparator [SNode 11 SoOtherNode []]"

definition scene_with_camera :: snode where
  "scene_with_camera =
     SNode 20 SoSeparator
       [SNode 21 SoSeparator [SNode 22 SoOtherNode [], SNode 23 SoOtherCamera []],
        SNode 24 SoPerspectiveCamera []]"

definition sample_rm :: rendermanager where
  "sample_rm =
     \<lparr>rm_scene = None, rm_camera = None, rm_viewport = (100, 100),
      rm_background = (0, 0, 0, 0), rm_transparency = 0, rm_rendermode = 0,
      rm_stereomode = MONO\<rparr>"

definition sample_em :: eventmanager where
  "sample_em =
     \<lparr>em_scene = None, em_camera = None, em_viewport = (100, 100), em_statemachines = []\<rparr>"

definition sample_state :: state where
  "sample_state =
     \<lparr>sorendermanager = Some 1, initialsorendermanager = True,
      soeventmanager = Some 2, initialsoeventmanager = True,
      processdelayqueue = True, autoredrawenabled = True,
      clearwindow = True, clearzbuffer = True,
      scene = None, headlight = sample_light,
      currentStateMachine = None, navigationModeFile = empty_url,
      device_pixel_ratio = 1,
      rmanagers = [1 \<mapsto> sample_rm, 3 \<mapsto> sample_rm\<lparr>rm_viewport := (1, 1)\<rparr>],
      emanagers = [2 \<mapsto> sample_em],
      statemachines = [],
      refcount = (\<lambda>n. 0)(0 := 1),
      next_id = 100,
      statecursormap = Some Map.empty,
      trace = []\<rparr>"

text \<open>The same widget showing a scene in a 640 by 480 viewport.\<close>

definition showing_rm :: rendermanager where
  "showing_rm =
     sample_rm\<lparr>rm_scene := Some (SNode 100 SoSeparator [sample_light, scene_with_camera]),
               rm_camera := Some (SNode 23 SoOtherCamera []),
               rm_viewport := (640, 480)\<rparr>"

definition showing_state :: state where
  "showing_state =
     sample_state\<lparr>scene := Some scene_with_camera,
                  rmanagers := [1 \<mapsto> showing_rm, 3 \<mapsto> sample_rm\<lparr>rm_viewport := (1, 1)\<rparr>],
                  refcount := (\<lambda>n. 0)(0 := 1, 20 := 1),
                  next_id := 101\<rparr>"

text \<open>
  A default navigation file, resources that hold it together with a readable
  local file and an object of the wrong class, and the widget after it has loaded
  the default file.
\<close>

definition examiner_url :: url where
  "examiner_url =
     \<lparr>scheme = ''coin'', authority = [], path = ''/scxml/navigation/examiner.xml'',
      query = [], fragment = []\<rparr>"

definition ftp_url :: url where
  "ftp_url =
     \<lparr>scheme = ''ftp'', authority = ''example.org'', path = ''/nav.xml'', query = [],
      fragment = []\<rparr>"

definition plain_url :: url where
  "plain_url =
     \<lparr>scheme = ''coin'', authority = [], path = ''/plain.xml'', query = [], fragment = []\<rparr>"

definition missing_url :: url where
  "missing_url =
     \<lparr>scheme = ''file'', authority = [], path = ''/tmp/missing.xml'', query = [],
      fragment = []\<rparr>"

definition sample_res :: resources where
  "sample_res =
     \<lparr>toLocalFile = path,
      readFile = (\<lambda>f. if f = ''coin:scxml/navigation/examiner.xml'' then Some SoScXMLStateMachineT
                      else if f = ''coin:plain.xml'' then Some ScXMLStateMachineT else None),
      openFile = (\<lambda>f. if f = ''/tmp/nav.xml'' then Some ''<scxml/>'' else None),
      readBuffer = (\<lambda>b. if b = ''<scxml/>'' then Some SoScXMLStateMachineT else None)\<rparr>"

definition navigating_state :: state where
  "navigating_state =
     sample_state\<lparr>currentStateMachine := Some 0,
                  navigationModeFile := examiner_url,
                  emanagers := [2 \<mapsto> sample_em\<lparr>em_statemachines := [0]\<rparr>],
                  statemachines :=
                    [Some \<lparr>sm_type = SoScXMLStateMachineT, sm_root = None, sm_camera = None,
                           sm_active = True, sm_callbacks = 1\<rparr>],
                  statecursormap := Some (fold bind_cursor default_cursors Map.empty)\<rparr>"

text \<open>The sample widget after \<^verbatim>\<open>setStateCursor("measure", Qt::CrossCursor)\<close>.\<close>

definition measuring_state :: state where
  "measuring_state = sample_state\<lparr>statecursormap := Some [''measure'' \<mapsto> CrossCursor]\<rparr>"

definition sample_processEvent :: "eventmanager \<Rightarrow> soevent \<Rightarrow> bool" where
  "sample_processEvent m e = (em_statemachines m \<noteq> [] \<and> e = SoEvent 7)"

definition sample_env :: paintenv where
  "sample_env =
     \<lparr>window_ratio = 1, widget_width = 640, widget_height = 480,
      isValid = True, isValid_after = True, isDelaySensorPending = True\<rparr>"

section \<open>Properties\<close>

lemma ebind_simps [simp]: "ebind (Inl e) f = Inl e" "ebind (Inr x) f = f x"
  by (simp_all add: ebind_def)

lemma bind_cursor_pair: "bind_cursor (k, c) m = m(k \<mapsto> c)"
  by (simp add: bind_cursor_def)

lemma ebind_eq_Inr: "ebind m f = Inr y \<longleftrightarrow> (\<exists>x. m = Inr x \<and> f x = Inr y)"
  by (cases m) simp_all

subsection \<open>C1: the render manager swap\<close>

text \<open>
  C1 as stated fails: the claim asks only for a non-null new manager, and the
  widget's own manager, as \<^verbatim>\<open>getSoRenderManager\<close> returns it, is one. With an
  owned manager the call deletes it and then calls \<^verbatim>\<open>setSceneGraph\<close> through
  the deleted pointer, so nothing is carried over.
\<close>

theorem self_swap_counterexample:
  "initialsorendermanager showing_state
   \<and> getSoRenderManager showing_state = Some 1
   \<and> rm_get (Some 1) showing_state = Inr showing_rm
   \<and> setSoRenderManager (getSoRenderManager showing_state) showing_state = Inl DanglingPointer"
  by (simp add: setSoRenderManager_def rm_get_def rm_set_def delete_rm_def ref_node_def
      getSoRenderManager_def showing_state_def sample_state_def showing_rm_def sample_rm_def
      Let_def)

text \<open>
  C1, amended. When the widget owns its current render manager and
  \<^verbatim>\<open>setSoRenderManager\<close> is given a live manager other than the current one,
  the call succeeds; the widget then points to the new manager and no longer owns
  its manager; the old manager has been deleted; the new manager, read back
  through \<^verbatim>\<open>getSoRenderManager\<close>, holds the scene graph, the camera and the
  viewport region that the old manager held before it was deleted, with its other
  settings as they were; and the \<^verbatim>\<open>ref()\<close>/\<^verbatim>\<open>unref()\<close> pairs around the swap
  leave every reference count as it was.
\<close>

theorem setSoRenderManager_carries:
  assumes "sorendermanager s = Some old" and "initialsorendermanager s"
    and "rmanagers s old = Some m" and "rmanagers s new = Some n" and "new \<noteq> old"
  shows "\<exists>s'. setSoRenderManager (Some new) s = Inr s'
           \<and> getSoRenderManager s' = Some new
           \<and> \<not> initialsorendermanager s'
           \<and> rmanagers s' old = None
           \<and> rm_get (getSoRenderManager s') s' =
               Inr (n\<lparr>rm_scene := rm_scene m, rm_camera := rm_camera m,
                      rm_viewport := rm_viewport m\<rparr>)
           \<and> refcount s' = refcount s"
  using assms
  by (auto simp: setSoRenderManager_def rm_get_def rm_set_def delete_rm_def ref_node_def
      unref_node_def getSoRenderManager_def Let_def fun_eq_iff split: option.splits)

theorem setSoRenderManager_carries_witness:
  "\<exists>s'. setSoRenderManager (Some 3) showing_state = Inr s'
     \<and> getSoRenderManager s' = Some 3
     \<and> \<not> initialsorendermanager s'
     \<and> rmanagers s' 1 = None
     \<and> rm_get (getSoRenderManager s') s' = Inr showing_rm
     \<and> refcount s' = refcount showing_state"
proof -
  have h: "sorendermanager showing_state = Some 1" "initialsorendermanager showing_state"
    "rmanagers showing_state 1 = Some showing_rm"
    "rmanagers showing_state 3 = Some (sample_rm\<lparr>rm_viewport := (1, 1)\<rparr>)" "(3::nat) \<noteq> 1"
    by (simp_all add: showing_state_def sample_state_def)
  have e: "(sample_rm\<lparr>rm_viewport := (1, 1)\<rparr>)\<lparr>rm_scene := rm_scene showing_rm,
      rm_camera := rm_camera showing_rm, rm_viewport := rm_viewport showing_rm\<rparr> = showing_rm"
    by (simp add: showing_rm_def sample_rm_def)
  show ?thesis
    using setSoRenderManager_carries [OF h] unfolding e .
qed

subsection \<open>C2: two paints in succession\<close>

lemma paintGL_sets_flag: "paintGL env s = Inr s' \<Longrightarrow> processdelayqueue s'"
  by (auto simp: paintGL_def Let_def updateDevicePixelRatio_def set_viewports_def rm_set_def
      em_set_def actualRedraw_def rm_get_def emit_def ebind_eq_Inr
      split: if_splits option.splits prod.splits)

lemma paintGL_flush:
  "processdelayqueue s \<Longrightarrow> isDelaySensorPending env \<Longrightarrow> paintGL env s = Inr s' \<Longrightarrow>
   flushes (trace s') = flushes (trace s) + 1"
  by (auto simp: paintGL_def Let_def updateDevicePixelRatio_def set_viewports_def rm_set_def
      em_set_def actualRedraw_def rm_get_def emit_def ebind_eq_Inr flushes_def
      split: if_splits option.splits prod.splits)

lemma paintGL_no_flush:
  "\<not> processdelayqueue s \<or> \<not> isDelaySensorPending env \<Longrightarrow> paintGL env s = Inr s' \<Longrightarrow>
   flushes (trace s') = flushes (trace s)"
  by (auto simp: paintGL_def Let_def updateDevicePixelRatio_def set_viewports_def rm_set_def
      em_set_def actualRedraw_def rm_get_def emit_def ebind_eq_Inr flushes_def
      split: if_splits option.splits prod.splits)

text \<open>
  C2 as stated fails: on the sample widget, with a delay sensor pending at both
  paints and no \<^verbatim>\<open>redraw\<close> in between, the second paint processes the delay
  queue once.
\<close>

theorem second_paint_counterexample:
  "second_paint_flushes sample_env sample_env sample_state = Some 1"
  by (simp add: second_paint_flushes_def paintGL_def sample_env_def sample_state_def
      updateDevicePixelRatio_def actualRedraw_def rm_get_def emit_def flushes_def Let_def)

text \<open>
  C2, amended. When \<^verbatim>\<open>paintGL\<close> runs twice in immediate succession with no
  \<^verbatim>\<open>redraw\<close> in between and a delay sensor is pending at the second paint, the
  second paint processes the delay queue exactly once: the first paint ends by
  setting \<^verbatim>\<open>processdelayqueue\<close> to true, whatever it was before. A paint that
  directly follows a \<^verbatim>\<open>redraw\<close> call does not process the delay queue, whether
  a delay sensor is pending or not, and sets \<^verbatim>\<open>processdelayqueue\<close> to true
  again.
\<close>

theorem second_paint_flushes_queue:
  "(paintGL env1 s = Inr s1 \<longrightarrow> isDelaySensorPending env2 \<longrightarrow> paintGL env2 s1 = Inr s2 \<longrightarrow>
      processdelayqueue s1 \<and> flushes (trace s2) = flushes (trace s1) + 1)
   \<and> (paintGL env (redraw s) = Inr s' \<longrightarrow>
      flushes (trace s') = flushes (trace s) \<and> processdelayqueue s')"
proof (intro conjI impI)
  assume a: "paintGL env1 s = Inr s1" "isDelaySensorPending env2" "paintGL env2 s1 = Inr s2"
  from a(1) show "processdelayqueue s1" by (rule paintGL_sets_flag)
  from this a(2) a(3) show "flushes (trace s2) = flushes (trace s1) + 1" by (rule paintGL_flush)
next
  assume r: "paintGL env (redraw s) = Inr s'"
  have "\<not> processdelayqueue (redraw s)" by (simp add: redraw_def emit_def)
  from paintGL_no_flush [OF disjI1, OF this r]
  show "flushes (trace s') = flushes (trace s)"
    by (simp add: redraw_def emit_def flushes_def)
  from r show "processdelayqueue s'" by (rule paintGL_sets_flag)
qed

theorem second_paint_flushes_queue_witness:
  "(\<exists>s1 s2. paintGL sample_env sample_state = Inr s1 \<and> isDelaySensorPending sample_env
      \<and> paintGL sample_env s1 = Inr s2
      \<and> processdelayqueue s1 \<and> flushes (trace s2) = flushes (trace s1) + 1)
   \<and> (\<exists>s'. paintGL sample_env (redraw sample_state) = Inr s'
      \<and> isDelaySensorPending sample_env
      \<and> flushes (trace s') = flushes (trace sample_state) \<and> flushes (trace s') = 0
      \<and> processdelayqueue s')"
proof -
  let ?t = "[DoneCurrent, ProcessDelayQueue, MakeCurrent, Render 1 True True]"
  have 1: "paintGL sample_env sample_state = Inr (sample_state\<lparr>trace := ?t\<rparr>)"
    by (simp add: paintGL_def sample_env_def sample_state_def updateDevicePixelRatio_def
        actualRedraw_def rm_get_def emit_def Let_def)
  have 2: "paintGL sample_env (sample_state\<lparr>trace := ?t\<rparr>) = Inr (sample_state\<lparr>trace := ?t @ ?t\<rparr>)"
    by (simp add: paintGL_def sample_env_def sample_state_def updateDevicePixelRatio_def
        actualRedraw_def rm_get_def emit_def Let_def)
  have 3: "isDelaySensorPending sample_env"
    by (simp add: sample_env_def)
  have 4: "paintGL sample_env (redraw sample_state) =
      Inr (sample_state\<lparr>trace := [Update, Render 1 True True]\<rparr>)"
    by (simp add: paintGL_def redraw_def sample_env_def sample_state_def
        updateDevicePixelRatio_def actualRedraw_def rm_get_def emit_def Let_def)
  have 5: "flushes (trace sample_state) = 0"
    by (simp add: sample_state_def flushes_def)
  from second_paint_flushes_queue
         [of sample_env sample_state "sample_state\<lparr>trace := ?t\<rparr>" sample_env
             "sample_state\<lparr>trace := ?t @ ?t\<rparr>" sample_env
             "sample_state\<lparr>trace := [Update, Render 1 True True]\<rparr>"]
    1 2 3 4 5
  show ?thesis by simp
qed

subsection \<open>C3: which setters request a redraw\<close>




subsection \<open>C4 and C5: installing a scene\<close>

lemma find_app:
  "List.find P (xs @ ys) = (case List.find P xs of None \<Rightarrow> List.find P ys | Some x \<Rightarrow> Some x)"
  by (induction xs) auto

text \<open>The search returns the first camera of the depth-first order.\<close>

lemma searchForCamera_preorder:
  "searchForCamera n = List.find (\<lambda>x. isCamera (kind x)) (preorder n)"
  "searchChildren ns = List.find (\<lambda>x. isCamera (kind x)) (preorder_list ns)"
  by (induction n and ns rule: searchForCamera_searchChildren.induct)
     (auto simp: find_app split: option.splits)

lemma emit_Nil [simp]: "emit [] s = s"
  by (simp add: emit_def)

lemma emit_emit [simp]: "emit b (emit a s) = emit (a @ b) s"
  by (simp add: emit_def)

lemma sm_at_emit [simp]: "sm_at (emit es s) = sm_at s"
  by (simp add: sm_at_def emit_def fun_eq_iff)

lemma active_machines_emit [simp]: "active_machines (emit es s) ps = active_machines s ps"
  by (simp add: active_machines_def)

lemma sm_at_cong: "statemachines s = statemachines t \<Longrightarrow> sm_at s = sm_at t"
  by (simp add: sm_at_def fun_eq_iff)

lemma active_machines_cong:
  "statemachines s = statemachines t \<Longrightarrow> active_machines s ps = active_machines t ps"
  using sm_at_cong [of s t] by (simp add: active_machines_def)

lemma attached_machines_cong:
  "soeventmanager s = soeventmanager t \<Longrightarrow> emanagers s = emanagers t \<Longrightarrow>
   attached_machines s = attached_machines t"
  by (simp add: attached_machines_def em_get_def split: option.splits)

text \<open>The loop sends the event to the active machines, in order, and changes nothing else.\<close>

lemma signal_machines_result:
  "signal_machines ev ps s = Inr s' \<Longrightarrow> s' = emit (signals ev (active_machines s ps)) s"
proof (induction ps arbitrary: s)
  case Nil
  then show ?case by (simp add: signals_def active_machines_def)
next
  case (Cons p ps)
  from Cons.prems obtain m where m: "sm_at s p = Some m"
    and r: "signal_machines ev ps
              (if sm_active m then emit [QueueEvent p ev, ProcessEventQueue p] s else s) = Inr s'"
    by (auto simp: ebind_eq_Inr sm_get_def split: option.splits)
  show ?case
  proof (cases "sm_active m")
    case True
    with r Cons.IH [of "emit [QueueEvent p ev, ProcessEventQueue p] s"] m
    show ?thesis by (simp add: signals_def active_machines_def)
  next
    case False
    with r Cons.IH [of s] m show ?thesis by (simp add: signals_def active_machines_def)
  qed
qed

lemma viewAll_result:
  "viewAll s = Inr s' \<Longrightarrow>
   s' = emit (signals ''sim.coin3d.coin.navigation.ViewAll''
               (active_machines s (attached_machines s))) s"
  by (auto simp: viewAll_def attached_machines_def ebind_eq_Inr dest: signal_machines_result)

lemma compose_scene_None:
  "searchForCamera n = None \<Longrightarrow>
   compose_scene n s =
     ((Some (SNode (Suc (next_id s)) SoPerspectiveCamera []),
       Some (SNode (next_id s) SoSeparator
              [headlight s, SNode (Suc (next_id s)) SoPerspectiveCamera [], n]),
       True),
      (ref_node (Some n) (s\<lparr>scene := Some n\<rparr>))\<lparr>next_id := Suc (Suc (next_id s))\<rparr>)"
  by (simp add: compose_scene_def new_node_def addChild_def ref_node_def Let_def)

lemma compose_scene_Some:
  "searchForCamera n = Some c \<Longrightarrow>
   compose_scene n s =
     ((Some c, Some (SNode (next_id s) SoSeparator [headlight s, n]), False),
      (ref_node (Some n) (s\<lparr>scene := Some n\<rparr>))\<lparr>next_id := Suc (next_id s)\<rparr>)"
  by (simp add: compose_scene_def new_node_def addChild_def ref_node_def Let_def)

lemma setSceneGraph_unfold:
  "map_option ident node \<noteq> map_option ident (scene s) \<Longrightarrow>
   setSceneGraph node s =
     (case node of
        None \<Rightarrow> install_scene None None False (release_scene s)
      | Some n \<Rightarrow>
          (case compose_scene n (release_scene s) of
             ((camera, superscene, viewall), s2) \<Rightarrow> install_scene camera superscene viewall s2))"
  by (simp add: setSceneGraph_def Let_def split: option.splits prod.splits)

lemma composed_fields:
  "headlight (release_scene s) = headlight s" "next_id (release_scene s) = next_id s"
  "trace ((ref_node (Some n) ((release_scene s)\<lparr>scene := Some n\<rparr>))\<lparr>next_id := k\<rparr>) = trace s"
  "scene ((ref_node (Some n) ((release_scene s)\<lparr>scene := Some n\<rparr>))\<lparr>next_id := k\<rparr>) = Some n"
  "statemachines ((ref_node (Some n) ((release_scene s)\<lparr>scene := Some n\<rparr>))\<lparr>next_id := k\<rparr>)
     = statemachines s"
  "soeventmanager ((ref_node (Some n) ((release_scene s)\<lparr>scene := Some n\<rparr>))\<lparr>next_id := k\<rparr>)
     = soeventmanager s"
  "emanagers ((ref_node (Some n) ((release_scene s)\<lparr>scene := Some n\<rparr>))\<lparr>next_id := k\<rparr>)
     = emanagers s"
  by (simp_all add: release_scene_def unref_node_def ref_node_def split: option.splits)

text \<open>
  What the installation leaves: both managers hold the camera and the root, and
  the trace has grown by the view reset, if marked, and the touch of the root.
\<close>

lemma install_scene_result:
  assumes "install_scene camera superscene viewall s = Inr s'"
  shows "\<exists>rm em. rm_get (sorendermanager s') s' = Inr rm \<and> em_get (soeventmanager s') s' = Inr em
     \<and> rm_scene rm = superscene \<and> em_scene em = superscene
     \<and> rm_camera rm = camera \<and> em_camera em = camera
     \<and> scene s' = scene s
     \<and> trace s' = trace s
         @ (if viewall
            then signals ''sim.coin3d.coin.navigation.ViewAll''
                   (active_machines s (attached_machines s))
            else [])
         @ (case superscene of None \<Rightarrow> [] | Some r \<Rightarrow> [Touch (ident r)])"
proof -
  from assms obtain a b rm0 em0 where p: "sorendermanager s = Some a" "soeventmanager s = Some b"
      "rmanagers s a = Some rm0" "emanagers s b = Some em0"
    by (auto simp: install_scene_def ebind_eq_Inr em_set_def rm_set_def split: option.splits)
  define s4 where "s4 =
    s\<lparr>emanagers := (emanagers s)(b \<mapsto> em0\<lparr>em_camera := camera, em_scene := superscene\<rparr>),
      rmanagers := (rmanagers s)(a \<mapsto> rm0\<lparr>rm_camera := camera, rm_scene := superscene\<rparr>)\<rparr>"
  from assms p have r: "ebind (if viewall then viewAll s4 else Inr s4)
       (\<lambda>s5. Inr (case superscene of None \<Rightarrow> s5 | Some r \<Rightarrow> emit [Touch (ident r)] s5)) = Inr s'"
    by (cases viewall) (simp_all add: install_scene_def em_set_def rm_set_def s4_def)
  then obtain s5 where 5: "(if viewall then viewAll s4 else Inr s4) = Inr s5"
    and 6: "s' = (case superscene of None \<Rightarrow> s5 | Some r \<Rightarrow> emit [Touch (ident r)] s5)"
    by (auto simp: ebind_eq_Inr)
  have am: "active_machines s4 ps = active_machines s ps" for ps
    by (rule active_machines_cong) (simp add: s4_def)
  have at: "attached_machines s4 = attached_machines s"
    using p by (simp add: attached_machines_def em_get_def s4_def)
  have 7: "s5 = emit (if viewall then signals ''sim.coin3d.coin.navigation.ViewAll''
                   (active_machines s (attached_machines s)) else []) s4"
    using 5 viewAll_result [of s4 s5] am at by (auto split: if_splits)
  show ?thesis
    using p 6 7
    by (cases superscene) (simp_all add: rm_get_def em_get_def s4_def emit_def)
qed

text \<open>
  C4. When \<^verbatim>\<open>setSceneGraph\<close> installs a node \<open>n\<close> that is not the scene already
  installed, both managers end with the same new separator as scene graph and
  \<open>n\<close> is the widget's scene. If the depth-first order of \<open>n\<close>'s subgraph has no
  camera, the separator's children are the headlight, a new perspective camera
  and \<open>n\<close>, in this order, that camera is the camera of both managers, and after
  the installation the view-all event has been sent once to each active attached
  state machine, followed by the touch of the root. If it has a camera, the
  children are the headlight and \<open>n\<close>, the first camera of the depth-first order
  is itself the camera of both managers, and the trace grows by the touch alone:
  no view-all event is sent.
\<close>

theorem setSceneGraph_installs:
  assumes "map_option ident (scene s) \<noteq> Some (ident n)"
    and "setSceneGraph (Some n) s = Inr s'"
  shows "\<exists>rm em superscene.
      rm_get (getSoRenderManager s') s' = Inr rm \<and> em_get (getSoEventManager s') s' = Inr em
    \<and> rm_scene rm = Some superscene \<and> em_scene em = Some superscene
    \<and> kind superscene = SoSeparator \<and> getSceneGraph s' = Some n
    \<and> (case List.find (\<lambda>x. isCamera (kind x)) (preorder n) of
         None \<Rightarrow>
           (\<exists>camera. kind camera = SoPerspectiveCamera
              \<and> children superscene = [headlight s, camera, n]
              \<and> rm_camera rm = Some camera \<and> em_camera em = Some camera
              \<and> trace s' = trace s
                  @ signals ''sim.coin3d.coin.navigation.ViewAll''
                      (active_machines s (attached_machines s))
                  @ [Touch (ident superscene)])
       | Some camera \<Rightarrow>
           children superscene = [headlight s, n]
           \<and> rm_camera rm = Some camera \<and> em_camera em = Some camera
           \<and> trace s' = trace s @ [Touch (ident superscene)])"
proof -
  from assms(1) have neq: "map_option ident (Some n) \<noteq> map_option ident (scene s)"
    by (cases "scene s") auto
  note u = assms(2) [unfolded setSceneGraph_unfold [OF neq]]
  show ?thesis
  proof (cases "searchForCamera n")
    case None
    from u have "install_scene (Some (SNode (Suc (next_id s)) SoPerspectiveCamera []))
        (Some (SNode (next_id s) SoSeparator
                 [headlight s, SNode (Suc (next_id s)) SoPerspectiveCamera [], n])) True
        ((ref_node (Some n) ((release_scene s)\<lparr>scene := Some n\<rparr>))\<lparr>next_id := Suc (Suc (next_id s))\<rparr>)
        = Inr s'"
      by (simp add: compose_scene_None [OF None] composed_fields)
    from install_scene_result [OF this] None show ?thesis
      unfolding composed_fields searchForCamera_preorder [symmetric]
        active_machines_cong [OF composed_fields(5)]
        attached_machines_cong [OF composed_fields(6) composed_fields(7)]
      by (auto simp: getSoRenderManager_def getSoEventManager_def getSceneGraph_def)
  next
    case (Some c)
    from u have "install_scene (Some c) (Some (SNode (next_id s) SoSeparator [headlight s, n])) False
        ((ref_node (Some n) ((release_scene s)\<lparr>scene := Some n\<rparr>))\<lparr>next_id := Suc (next_id s)\<rparr>)
        = Inr s'"
      by (simp add: compose_scene_Some [OF Some] composed_fields)
    from install_scene_result [OF this] Some show ?thesis
      unfolding composed_fields searchForCamera_preorder [symmetric]
      by (auto simp: getSoRenderManager_def getSoEventManager_def getSceneGraph_def)
  qed
qed

lemmas sample_defs =
  navigating_state_def sample_state_def sample_em_def sample_rm_def sample_light_def
  scene_without_camera_def scene_with_camera_def

lemmas run_defs =
  setSceneGraph_def release_scene_def compose_scene_def new_node_def addChild_def ref_node_def
  unref_node_def install_scene_def em_set_def rm_set_def viewAll_def em_get_def rm_get_def
  sm_get_def sm_at_def emit_def isCamera_def Let_def

theorem setSceneGraph_installs_witness:
  "(\<exists>s'. setSceneGraph (Some scene_without_camera) navigating_state = Inr s'
      \<and> (\<exists>rm em superscene camera.
            rm_get (getSoRenderManager s') s' = Inr rm
          \<and> em_get (getSoEventManager s') s' = Inr em
          \<and> rm_scene rm = Some superscene \<and> em_scene em = Some superscene
          \<and> kind camera = SoPerspectiveCamera
          \<and> children superscene = [sample_light, camera, scene_without_camera]
          \<and> rm_camera rm = Some camera \<and> em_camera em = Some camera
          \<and> trace s' = [QueueEvent 0 ''sim.coin3d.coin.navigation.ViewAll'',
                         ProcessEventQueue 0, Touch (ident superscene)]))
   \<and> (\<exists>s'. setSceneGraph (Some scene_with_camera) navigating_state = Inr s'
      \<and> (\<exists>rm em superscene.
            rm_get (getSoRenderManager s') s' = Inr rm
          \<and> em_get (getSoEventManager s') s' = Inr em
          \<and> rm_scene rm = Some superscene \<and> em_scene em = Some superscene
          \<and> children superscene = [sample_light, scene_with_camera]
          \<and> rm_camera rm = Some (SNode 23 SoOtherCamera [])
          \<and> em_camera em = Some (SNode 23 SoOtherCamera [])
          \<and> trace s' = [Touch (ident superscene)]))"
proof -
  have f: "headlight navigating_state = sample_light" "trace navigating_state = []"
    "active_machines navigating_state (attached_machines navigating_state) = [0]"
    by (simp_all add: sample_defs active_machines_def attached_machines_def em_get_def sm_at_def)
  have "\<exists>s'. setSceneGraph (Some scene_without_camera) navigating_state = Inr s'"
    by (simp add: run_defs sample_defs)
  then obtain s1 where 1: "setSceneGraph (Some scene_without_camera) navigating_state = Inr s1" ..
  have h1: "map_option ident (scene navigating_state) \<noteq> Some (ident scene_without_camera)"
    by (simp add: sample_defs)
  have c1: "List.find (\<lambda>x. isCamera (kind x)) (preorder scene_without_camera) = None"
    by (simp add: scene_without_camera_def isCamera_def)
  have "\<exists>s'. setSceneGraph (Some scene_with_camera) navigating_state = Inr s'"
    by (simp add: run_defs sample_defs)
  then obtain s2 where 2: "setSceneGraph (Some scene_with_camera) navigating_state = Inr s2" ..
  have h2: "map_option ident (scene navigating_state) \<noteq> Some (ident scene_with_camera)"
    by (simp add: sample_defs)
  have c2: "List.find (\<lambda>x. isCamera (kind x)) (preorder scene_with_camera)
      = Some (SNode 23 SoOtherCamera [])"
    by (simp add: scene_with_camera_def isCamera_def)
  from setSceneGraph_installs [OF h1 1] setSceneGraph_installs [OF h2 2] 1 2
  show ?thesis
    unfolding c1 c2 f by (simp add: signals_def) blast
qed

lemma setSceneGraph_scene:
  assumes a: "setSceneGraph node s = Inr s'"
  shows "map_option ident (scene s') = map_option ident node"
proof (cases "map_option ident node = map_option ident (scene s)")
  case True
  with a show ?thesis by (simp add: setSceneGraph_def)
next
  case False
  note u = a [unfolded setSceneGraph_unfold [OF False]]
  show ?thesis
  proof (cases node)
    case None
    with u have "install_scene None None False (release_scene s) = Inr s'"
      by simp
    from install_scene_result [OF this] None show ?thesis
      by (auto simp: release_scene_def unref_node_def split: option.splits)
  next
    case (Some n)
    show ?thesis
    proof (cases "searchForCamera n")
      case None
      from u Some obtain cam sup s2 where "install_scene cam sup True s2 = Inr s'"
        and "scene s2 = Some n"
        by (simp add: compose_scene_None [OF None] composed_fields)
      from install_scene_result [OF this(1)] this(2) Some show ?thesis by auto
    next
      case (Some c)
      from u \<open>node = Some n\<close> obtain cam sup s2 where "install_scene cam sup False s2 = Inr s'"
        and "scene s2 = Some n"
        by (simp add: compose_scene_Some [OF Some] composed_fields)
      from install_scene_result [OF this(1)] this(2) \<open>node = Some n\<close> show ?thesis by auto
    qed
  qed
qed

text \<open>
  C5. Whenever \<^verbatim>\<open>setSceneGraph\<close> of a node (or of the null pointer) has
  succeeded, the same call once more returns at once and leaves the whole state as
  the first call left it: the scene graphs and cameras of both managers, every
  reference count, the trace and all other fields are those after the first
  call.
\<close>

theorem setSceneGraph_twice:
  assumes "setSceneGraph n s = Inr s'"
  shows "setSceneGraph n s' = Inr s'"
  using setSceneGraph_scene [OF assms] by (simp add: setSceneGraph_def)

theorem setSceneGraph_twice_witness:
  "\<exists>s'. setSceneGraph (Some scene_with_camera) navigating_state = Inr s'
     \<and> setSceneGraph (Some scene_with_camera) s' = Inr s'
     \<and> refcount s' 20 = 1 \<and> trace s' = [Touch 100]"
proof -
  have "\<exists>s'. setSceneGraph (Some scene_with_camera) navigating_state = Inr s'
      \<and> refcount s' 20 = 1 \<and> trace s' = [Touch 100]"
    by (simp add: run_defs sample_defs)
  then obtain s1 where 1: "setSceneGraph (Some scene_with_camera) navigating_state = Inr s1"
    and 2: "refcount s1 20 = 1 \<and> trace s1 = [Touch 100]" by blast
  from setSceneGraph_twice [OF 1] 1 2 show ?thesis by blast
qed

subsection \<open>C6, C7, C10: navigation loads that change nothing\<close>

text \<open>The widget used in the examples is the sample widget after loading the default file.\<close>

lemma navigating_state_loaded:
  "setNavigationModeFile sample_res examiner_url examiner_url sample_state = Inr navigating_state"
  by (simp add: setNavigationModeFile_def load_navigation_def read_statemachine_def
      coin_filename_def new_sm_def sm_at_def addStateMachine_def em_set_def rm_get_def sm_set_def
      getSoEventManager_def getSoRenderManager_def setStateCursor_def bind_cursor_pair
      default_cursors_def examiner_url_def sample_res_def navigating_state_def sample_state_def
      sample_em_def sample_rm_def Let_def)

text \<open>
  C6. For a locator whose scheme is neither \<^verbatim>\<open>coin\<close> nor \<^verbatim>\<open>file\<close> and which is
  not empty, \<^verbatim>\<open>setNavigationModeFile\<close> returns normally, reports the scheme as
  not recognized through \<^verbatim>\<open>qDebug\<close>, and changes nothing else: the current
  state machine, the stored \<^verbatim>\<open>navigationModeFile\<close>, the state machine objects
  and the machines attached to the event manager are as before.
\<close>

theorem unsupported_scheme_unchanged:
  assumes "scheme u \<noteq> ''coin''" and "scheme u \<noteq> ''file''" and "\<not> isEmpty u"
  shows "\<exists>s'. setNavigationModeFile res d u s = Inr s'
      \<and> s' = s\<lparr>trace := trace s @ [QDebug [DStr (scheme u), DStr ''is not recognized'']]\<rparr>
      \<and> currentStateMachine s' = currentStateMachine s
      \<and> navigationModeFile s' = navigationModeFile s
      \<and> statemachines s' = statemachines s
      \<and> attached_machines s' = attached_machines s"
  using assms
  by (simp add: setNavigationModeFile_def emit_def attached_machines_def em_get_def
      split: option.splits)

theorem unsupported_scheme_unchanged_witness:
  "scheme ftp_url \<noteq> ''coin'' \<and> scheme ftp_url \<noteq> ''file'' \<and> \<not> isEmpty ftp_url
   \<and> (\<exists>s'. setNavigationModeFile sample_res examiner_url ftp_url navigating_state = Inr s'
        \<and> s' = navigating_state\<lparr>trace := [QDebug [DStr ''ftp'', DStr ''is not recognized'']]\<rparr>
        \<and> currentStateMachine s' = Some 0
        \<and> navigationModeFile s' = examiner_url
        \<and> statemachines s' = statemachines navigating_state
        \<and> attached_machines s' = [0])"
proof -
  have h: "scheme ftp_url \<noteq> ''coin''" "scheme ftp_url \<noteq> ''file''" "\<not> isEmpty ftp_url"
    by (simp_all add: ftp_url_def isEmpty_def)
  have f: "trace navigating_state = []" "scheme ftp_url = ''ftp''"
    "currentStateMachine navigating_state = Some 0"
    "navigationModeFile navigating_state = examiner_url"
    "attached_machines navigating_state = [0]"
    by (simp_all add: sample_defs ftp_url_def attached_machines_def em_get_def)
  from unsupported_scheme_unchanged [OF h, of sample_res examiner_url navigating_state] h
  show ?thesis
    unfolding f by simp
qed

text \<open>A load that does not yield a state machine of the expected class.\<close>

lemma load_navigation_fails:
  assumes "read_statemachine res filename \<noteq> Some SoScXMLStateMachineT"
  shows "\<exists>pad. (pad = [] \<or> pad = [None])
     \<and> load_navigation res d u filename s =
         Inr (s\<lparr>statemachines := statemachines s @ pad,
                trace := trace s @ [QDebug [DStr filename],
                                    QDebug [DStr ''Unable to load'', DUrl u]]\<rparr>)"
proof (cases "read_statemachine res filename")
  case None
  then have "load_navigation res d u filename s =
         Inr (s\<lparr>statemachines := statemachines s @ [],
                trace := trace s @ [QDebug [DStr filename],
                                    QDebug [DStr ''Unable to load'', DUrl u]]\<rparr>)"
    by (simp add: load_navigation_def delete_sm_def emit_def)
  then show ?thesis by blast
next
  case (Some t)
  with assms have t: "t = ScXMLStateMachineT" by (cases t) auto
  have "load_navigation res d u filename s =
         Inr (s\<lparr>statemachines := statemachines s @ [None],
                trace := trace s @ [QDebug [DStr filename],
                                    QDebug [DStr ''Unable to load'', DUrl u]]\<rparr>)"
    using Some t
    by (simp add: load_navigation_def delete_sm_def new_sm_def sm_at_def emit_def)
  then show ?thesis by blast
qed

text \<open>
  C7. When the scheme is \<^verbatim>\<open>coin\<close> or \<^verbatim>\<open>file\<close> and reading the named resource
  does not yield an object of class \<^verbatim>\<open>SoScXMLStateMachine\<close> (the resource cannot
  be opened, the reader builds nothing, or it builds an object of another class),
  \<^verbatim>\<open>setNavigationModeFile\<close> returns normally, reports the file name and
  \<^verbatim>\<open>Unable to load\<close> through \<^verbatim>\<open>qDebug\<close>, and leaves the state as it was except
  for the trace: an object that was built has been deleted again, so that every
  address holds the state machine it held before, and the current state machine,
  the stored \<^verbatim>\<open>navigationModeFile\<close>, the event managers and the cursor table
  are unchanged.
\<close>

theorem failed_load_unchanged:
  assumes "scheme u = ''coin'' \<or> scheme u = ''file''"
    and "read_statemachine res (navigation_filename res u) \<noteq> Some SoScXMLStateMachineT"
  shows "\<exists>s' pad. setNavigationModeFile res d u s = Inr s'
      \<and> (pad = [] \<or> pad = [None])
      \<and> s' = s\<lparr>statemachines := statemachines s @ pad,
               trace := trace s @ [QDebug [DStr (navigation_filename res u)],
                                   QDebug [DStr ''Unable to load'', DUrl u]]\<rparr>
      \<and> sm_at s' = sm_at s
      \<and> sm_at s' (length (statemachines s)) = None
      \<and> currentStateMachine s' = currentStateMachine s
      \<and> navigationModeFile s' = navigationModeFile s
      \<and> emanagers s' = emanagers s
      \<and> statecursormap s' = statecursormap s"
proof -
  have e: "setNavigationModeFile res d u s = load_navigation res d u (navigation_filename res u) s"
    using assms(1) by (auto simp: setNavigationModeFile_def navigation_filename_def)
  from load_navigation_fails [OF assms(2), of d u s] obtain pad
    where p: "pad = [] \<or> pad = [None]"
      and l: "load_navigation res d u (navigation_filename res u) s =
         Inr (s\<lparr>statemachines := statemachines s @ pad,
                trace := trace s @ [QDebug [DStr (navigation_filename res u)],
                                    QDebug [DStr ''Unable to load'', DUrl u]]\<rparr>)"
    by blast
  from p have "sm_at (s\<lparr>statemachines := statemachines s @ pad,
                trace := trace s @ [QDebug [DStr (navigation_filename res u)],
                                    QDebug [DStr ''Unable to load'', DUrl u]]\<rparr>) = sm_at s"
    by (auto simp: sm_at_def fun_eq_iff nth_append)
  moreover have "sm_at s (length (statemachines s)) = None"
    by (simp add: sm_at_def)
  ultimately show ?thesis
    using e l p by auto
qed

theorem failed_load_unchanged_witness:
  "((scheme plain_url = ''coin'' \<or> scheme plain_url = ''file'')
    \<and> read_statemachine sample_res (navigation_filename sample_res plain_url)
         \<noteq> Some SoScXMLStateMachineT
    \<and> (\<exists>s' pad. setNavigationModeFile sample_res examiner_url plain_url navigating_state = Inr s'
         \<and> (pad = [] \<or> pad = [None])
         \<and> s' = navigating_state\<lparr>statemachines := statemachines navigating_state @ pad,
                trace := [QDebug [DStr ''coin:plain.xml''],
                          QDebug [DStr ''Unable to load'', DUrl plain_url]]\<rparr>
         \<and> sm_at s' = sm_at navigating_state
         \<and> sm_at s' 1 = None
         \<and> currentStateMachine s' = Some 0
         \<and> navigationModeFile s' = examiner_url
         \<and> emanagers s' = emanagers navigating_state
         \<and> statecursormap s' = statecursormap navigating_state))
   \<and> ((scheme missing_url = ''coin'' \<or> scheme missing_url = ''file'')
    \<and> read_statemachine sample_res (navigation_filename sample_res missing_url)
         \<noteq> Some SoScXMLStateMachineT
    \<and> (\<exists>s' pad. setNavigationModeFile sample_res examiner_url missing_url navigating_state = Inr s'
         \<and> (pad = [] \<or> pad = [None])
         \<and> s' = navigating_state\<lparr>statemachines := statemachines navigating_state @ pad,
                trace := [QDebug [DStr ''/tmp/missing.xml''],
                          QDebug [DStr ''Unable to load'', DUrl missing_url]]\<rparr>
         \<and> sm_at s' = sm_at navigating_state
         \<and> sm_at s' 1 = None
         \<and> currentStateMachine s' = Some 0
         \<and> navigationModeFile s' = examiner_url
         \<and> emanagers s' = emanagers navigating_state
         \<and> statecursormap s' = statecursormap navigating_state))"
proof -
  have h: "scheme plain_url = ''coin'' \<or> scheme plain_url = ''file''"
    "read_statemachine sample_res (navigation_filename sample_res plain_url)
       \<noteq> Some SoScXMLStateMachineT"
    by (simp_all add: plain_url_def sample_res_def read_statemachine_def navigation_filename_def
        coin_filename_def)
  have g: "scheme missing_url = ''coin'' \<or> scheme missing_url = ''file''"
    "read_statemachine sample_res (navigation_filename sample_res missing_url)
       \<noteq> Some SoScXMLStateMachineT"
    by (simp_all add: missing_url_def sample_res_def read_statemachine_def
        navigation_filename_def)
  have f: "navigation_filename sample_res plain_url = ''coin:plain.xml''"
    "navigation_filename sample_res missing_url = ''/tmp/missing.xml''"
    "trace navigating_state = []" "length (statemachines navigating_state) = 1"
    "currentStateMachine navigating_state = Some 0"
    "navigationModeFile navigating_state = examiner_url"
    by (simp_all add: plain_url_def missing_url_def sample_res_def navigation_filename_def
        coin_filename_def sample_defs)
  from failed_load_unchanged [OF h, of examiner_url navigating_state]
    failed_load_unchanged [OF g, of examiner_url navigating_state] h g
  show ?thesis
    unfolding f by simp
qed

text \<open>
  C10. With an empty locator and no state machine loaded,
  \<^verbatim>\<open>setNavigationModeFile\<close> returns the state it was given: nothing is logged
  and the stored \<^verbatim>\<open>navigationModeFile\<close> is not assigned.
\<close>

theorem empty_url_without_machine_noop:
  assumes "isEmpty u" and "currentStateMachine s = None"
  shows "setNavigationModeFile res d u s = Inr s"
  using assms by (auto simp: setNavigationModeFile_def isEmpty_def)

theorem empty_url_without_machine_noop_witness:
  "isEmpty empty_url \<and> currentStateMachine sample_state = None
   \<and> setNavigationModeFile sample_res examiner_url empty_url sample_state = Inr sample_state"
proof -
  have h: "isEmpty empty_url" "currentStateMachine sample_state = None"
    by (simp_all add: isEmpty_def empty_url_def sample_state_def)
  from empty_url_without_machine_noop [OF h] h show ?thesis by simp
qed

subsection \<open>C9: dispatching an event\<close>

text \<open>
  C9. \<^verbatim>\<open>processSoEvent\<close> answers false and leaves the state as it is, forwarding
  nothing, when the event is null or the widget has no event manager; with an
  event and a live event manager it forwards the event to that manager once and
  answers exactly what the manager's \<^verbatim>\<open>processEvent\<close> answers.
\<close>

theorem processSoEvent_result:
  "processSoEvent pe None s = Inr (False, s)
   \<and> (soeventmanager s = None \<longrightarrow> processSoEvent pe ev s = Inr (False, s))
   \<and> (soeventmanager s = Some a \<longrightarrow> emanagers s a = Some m \<longrightarrow>
        processSoEvent pe (Some e) s = Inr (pe m e, s\<lparr>trace := trace s @ [ProcessEvent a e]\<rparr>))"
  by (simp add: processSoEvent_def em_get_def emit_def split: option.splits)

theorem processSoEvent_result_witness:
  "processSoEvent sample_processEvent None navigating_state = Inr (False, navigating_state)
   \<and> processSoEvent sample_processEvent (Some (SoEvent 7))
        (navigating_state\<lparr>soeventmanager := None\<rparr>)
      = Inr (False, navigating_state\<lparr>soeventmanager := None\<rparr>)
   \<and> processSoEvent sample_processEvent (Some (SoEvent 7)) navigating_state
      = Inr (True, navigating_state\<lparr>trace := [ProcessEvent 2 (SoEvent 7)]\<rparr>)
   \<and> processSoEvent sample_processEvent (Some (SoEvent 8)) navigating_state
      = Inr (False, navigating_state\<lparr>trace := [ProcessEvent 2 (SoEvent 8)]\<rparr>)"
proof -
  let ?m = "sample_em\<lparr>em_statemachines := [0]\<rparr>"
  have h: "soeventmanager (navigating_state\<lparr>soeventmanager := None\<rparr>) = None"
    "soeventmanager navigating_state = Some 2" "emanagers navigating_state 2 = Some ?m"
    "trace navigating_state = []"
    by (simp_all add: sample_defs)
  have v: "sample_processEvent ?m (SoEvent 7)" "\<not> sample_processEvent ?m (SoEvent 8)"
    by (simp_all add: sample_processEvent_def)
  from processSoEvent_result [of sample_processEvent navigating_state "Some (SoEvent 7)" 2 ?m
      "SoEvent 7"]
    processSoEvent_result [of sample_processEvent navigating_state "Some (SoEvent 7)" 2 ?m
      "SoEvent 8"]
    processSoEvent_result [of sample_processEvent "navigating_state\<lparr>soeventmanager := None\<rparr>"
      "Some (SoEvent 7)" 2 ?m "SoEvent 7"]
  show ?thesis
    using h v by simp
qed

subsection \<open>C8: the default cursors\<close>

lemma sm_set_cursors: "sm_set p f s = Inr s' \<Longrightarrow> statecursormap s' = statecursormap s"
  by (auto simp: sm_set_def split: option.splits)

lemma em_set_cursors: "em_set p f s = Inr s' \<Longrightarrow> statecursormap s' = statecursormap s"
  by (auto simp: em_set_def split: option.splits)

lemma delete_sm_cursors: "delete_sm p s = Inr s' \<Longrightarrow> statecursormap s' = statecursormap s"
  by (auto simp: delete_sm_def split: option.splits)

lemma removeStateMachine_cursors:
  "removeStateMachine p s = Inr s' \<Longrightarrow> statecursormap s' = statecursormap s"
  by (auto simp: removeStateMachine_def ebind_eq_Inr dest!: sm_set_cursors em_set_cursors)

lemma addStateMachine_cursors:
  "addStateMachine p s = Inr s' \<Longrightarrow> statecursormap s' = statecursormap s"
  by (auto simp: addStateMachine_def ebind_eq_Inr dest!: sm_set_cursors em_set_cursors)

lemma setStateCursors_set:
  "statecursormap s \<noteq> None \<Longrightarrow>
   setStateCursors cs s =
     Inr (s\<lparr>statecursormap := Some (fold bind_cursor cs (the (statecursormap s)))\<rparr>)"
proof (induction cs arbitrary: s)
  case Nil
  then show ?case by auto
next
  case (Cons kc cs)
  obtain k c where kc: "kc = (k, c)" by (cases kc)
  from Cons.prems obtain m where m: "statecursormap s = Some m" by auto
  have "statecursormap (s\<lparr>statecursormap := Some (m(k \<mapsto> c))\<rparr>) \<noteq> None"
    by simp
  from Cons.IH [OF this] m kc show ?case
    by (simp add: setStateCursor_def bind_cursor_pair del: fun_upd_apply)
qed

lemma setStateCursors_result:
  "statecursormap s = Some m \<Longrightarrow>
   setStateCursors cs s = Inr (s\<lparr>statecursormap := Some (fold bind_cursor cs m)\<rparr>)"
  using setStateCursors_set [of s cs] by simp

lemma setStateCursors_unset:
  "statecursormap s = None \<Longrightarrow> cs \<noteq> [] \<Longrightarrow> setStateCursors cs s = Inl AssertionFailed"
  by (cases cs) (auto simp: setStateCursor_def)

text \<open>A load that yields a state machine of the expected class.\<close>

lemma load_navigation_succeeds:
  assumes "read_statemachine res filename = Some SoScXMLStateMachineT"
    and "load_navigation res d u filename s = Inr s'"
  shows "\<exists>s7. statecursormap s7 = statecursormap s \<and> navigationModeFile s7 = u
     \<and> (if d = u then setStateCursors default_cursors s7 else Inr s7) = Inr s'"
proof -
  define s1 where "s1 = snd (new_sm SoScXMLStateMachineT s)"
  define a where "a = fst (new_sm SoScXMLStateMachineT s)"
  have n: "new_sm SoScXMLStateMachineT s = (a, s1)" by (simp add: a_def s1_def)
  have c: "statecursormap s1 = statecursormap s"
    by (simp add: s1_def new_sm_def)
  have t: "sm_at s1 a = Some \<lparr>sm_type = SoScXMLStateMachineT, sm_root = None, sm_camera = None,
      sm_active = False, sm_callbacks = 0\<rparr>"
    by (simp add: s1_def a_def new_sm_def sm_at_def)
  from assms n t obtain s3 s4 s5 where
    3: "(if currentStateMachine s1 \<noteq> None
         then ebind (removeStateMachine (currentStateMachine s1) s1)
                (\<lambda>s2. delete_sm (currentStateMachine s2) s2)
         else Inr s1) = Inr s3"
    and 4: "addStateMachine (Some a) s3 = Inr s4"
    and 5: "sm_set (Some a) (\<lambda>m. m\<lparr>sm_active := True\<rparr>) s4 = Inr s5"
    and 6: "(if d = u then setStateCursors default_cursors
                (s5\<lparr>currentStateMachine := Some a, navigationModeFile := u\<rparr>)
             else Inr (s5\<lparr>currentStateMachine := Some a, navigationModeFile := u\<rparr>)) = Inr s'"
    by (auto simp: load_navigation_def ebind_eq_Inr Let_def split: if_splits)
  from 3 c have "statecursormap s3 = statecursormap s"
    by (auto simp: ebind_eq_Inr split: if_splits
        dest!: removeStateMachine_cursors delete_sm_cursors)
  with 4 5 have "statecursormap s5 = statecursormap s"
    by (auto dest!: addStateMachine_cursors sm_set_cursors)
  with 6 show ?thesis
    by (intro exI [of _ "s5\<lparr>currentStateMachine := Some a, navigationModeFile := u\<rparr>"]) simp
qed

text \<open>
  C8 as stated fails: after \<^verbatim>\<open>setStateCursor("measure", ...)\<close> a successful load
  of the default navigation file leaves the table with a binding for
  \<^verbatim>\<open>measure\<close>, which is not one of the eight names.
\<close>

theorem cursor_table_counterexample:
  "ebind (setNavigationModeFile sample_res examiner_url examiner_url measuring_state)
     (stateCursor ''measure'') = Inr (Some CrossCursor)
   \<and> ''measure'' \<notin> set (map fst default_cursors)"
  by (simp add: setNavigationModeFile_def load_navigation_def read_statemachine_def
      coin_filename_def new_sm_def sm_at_def addStateMachine_def em_set_def rm_get_def sm_set_def
      getSoEventManager_def getSoRenderManager_def setStateCursor_def stateCursor_def
      default_cursors_def examiner_url_def sample_res_def measuring_state_def sample_state_def
      sample_em_def sample_rm_def Let_def)

text \<open>
  C8, amended. A successful load of the default navigation file binds the eight
  names interact, idle, rotate, pan, zoom, dolly, seek and spin in the
  process-wide cursor table and leaves every other binding of the table as it
  was: the names bound afterwards are those bound before together with the
  eight, so the table holds exactly the eight when it held no other name before.
  A successful load of any other file leaves the cursor table unchanged.
\<close>

theorem default_load_binds_cursors:
  assumes "scheme u = ''coin'' \<or> scheme u = ''file''"
    and "read_statemachine res (navigation_filename res u) = Some SoScXMLStateMachineT"
    and "setNavigationModeFile res d u s = Inr s'"
  shows "navigationModeFile s' = u
     \<and> (u = d \<longrightarrow>
          (\<exists>m m'. statecursormap s = Some m \<and> statecursormap s' = Some m'
             \<and> m' = m(''interact'' \<mapsto> ArrowCursor, ''idle'' \<mapsto> OpenHandCursor,
                      ''rotate'' \<mapsto> ClosedHandCursor, ''pan'' \<mapsto> SizeAllCursor,
                      ''zoom'' \<mapsto> SizeVerCursor, ''dolly'' \<mapsto> SizeVerCursor,
                      ''seek'' \<mapsto> CrossCursor, ''spin'' \<mapsto> OpenHandCursor)
             \<and> dom m' = dom m \<union> {''interact'', ''idle'', ''rotate'', ''pan'', ''zoom'',
                                    ''dolly'', ''seek'', ''spin''}))
     \<and> (u \<noteq> d \<longrightarrow> statecursormap s' = statecursormap s)"
proof -
  have e: "setNavigationModeFile res d u s = load_navigation res d u (navigation_filename res u) s"
    using assms(1) by (auto simp: setNavigationModeFile_def navigation_filename_def)
  from load_navigation_succeeds [OF assms(2) assms(3) [unfolded e]] obtain s7
    where 7: "statecursormap s7 = statecursormap s" "navigationModeFile s7 = u"
      "(if d = u then setStateCursors default_cursors s7 else Inr s7) = Inr s'"
    by blast
  show ?thesis
  proof (cases "d = u")
    case False
    with 7 show ?thesis by auto
  next
    case True
    show ?thesis
    proof (cases "statecursormap s")
      case None
      with 7 True setStateCursors_unset [of s7 default_cursors] show ?thesis
        by (simp add: default_cursors_def)
    next
      case (Some m)
      with 7 True setStateCursors_result [of s7 m default_cursors]
      have "s' = s7\<lparr>statecursormap := Some (fold bind_cursor default_cursors m)\<rparr>"
        by simp
      with 7 True Some show ?thesis
        by (auto simp: default_cursors_def bind_cursor_pair)
    qed
  qed
qed

theorem default_load_binds_cursors_witness:
  "\<exists>s'. setNavigationModeFile sample_res examiner_url examiner_url measuring_state = Inr s'
     \<and> navigationModeFile s' = examiner_url
     \<and> (\<exists>m'. statecursormap s' = Some m'
          \<and> dom m' = {''measure'', ''interact'', ''idle'', ''rotate'', ''pan'', ''zoom'',
                       ''dolly'', ''seek'', ''spin''})"
proof -
  have h: "scheme examiner_url = ''coin'' \<or> scheme examiner_url = ''file''"
    "read_statemachine sample_res (navigation_filename sample_res examiner_url)
       = Some SoScXMLStateMachineT"
    by (simp_all add: examiner_url_def sample_res_def read_statemachine_def
        navigation_filename_def coin_filename_def)
  have "\<exists>s'. setNavigationModeFile sample_res examiner_url examiner_url measuring_state = Inr s'"
    by (simp add: setNavigationModeFile_def load_navigation_def read_statemachine_def
      coin_filename_def new_sm_def sm_at_def addStateMachine_def em_set_def rm_get_def sm_set_def
      getSoEventManager_def getSoRenderManager_def setStateCursor_def
      default_cursors_def examiner_url_def sample_res_def measuring_state_def sample_state_def
      sample_em_def sample_rm_def Let_def)
  then obtain s1 where
    1: "setNavigationModeFile sample_res examiner_url examiner_url measuring_state = Inr s1" ..
  have m: "statecursormap measuring_state = Some [''measure'' \<mapsto> CrossCursor]"
    by (simp add: measuring_state_def)
  from default_load_binds_cursors [OF h 1] 1 m show ?thesis
    by auto
qed

end
